theory Spec2Isabelle
  imports Main "HOL-Library.Word"
begin

section \<open>Pointers and const: the two range traversals of main.cpp\<close>

text \<open>
  The program walks a half-open range of an \<^verbatim>\<open>int\<close> array through a pair of pointers,
  once to increment every element (\<^verbatim>\<open>increment_all\<close>) and once to print every element
  through pointers to const (\<^verbatim>\<open>print_all\<close>).

  \<^item> An \<^verbatim>\<open>int\<close> is the 32-bit two's complement integer of the usual ABIs: a
    \<open>32 word\<close>, read with \<open>sint\<close>.
  \<^item> The array is a list of such words; a pointer into it is the position of the
    element it points to, and the one-past-the-end pointer of an array of \<open>n\<close> elements
    is the position \<open>n\<close>. Two pointers compare equal exactly when their positions do.
  \<^item> The program state is the array together with the characters written to
    \<^verbatim>\<open>cout\<close> so far.
  \<^item> Dereferencing a pointer that addresses no element of the array is undefined in
    C++; it is a result of the model of its own, \<open>OutOfBounds\<close>, so that no behaviour
    is invented for it.
  \<^item> \<^verbatim>\<open>++(*current)\<close> on the largest \<^verbatim>\<open>int\<close> overflows. The standard leaves that
    undefined as well, but the loop neither tests nor traps it: the compiled program
    adds 1 in the 32-bit register and goes on, so the element wraps around to the
    smallest \<^verbatim>\<open>int\<close>. The model takes the addition of the word type, which wraps in
    the same way. Statements about the integer value of an incremented element carry
    the bound under which no overflow occurs.
\<close>

subsection \<open>Data\<close>

type_synonym cint = "32 word"

definition INT_MAX :: int where
  "INT_MAX = 2147483647"

datatype ub = OutOfBounds

record state =
  arr :: "cint list"
  cout :: string

subsection \<open>Formatted output of an int\<close>

text \<open>
  \<^verbatim>\<open>cout << *current\<close> inserts the value in decimal (the stream's flags are never
  changed from their defaults): a minus sign for a negative value, then the digits, most
  significant first, with no padding and no separators. \<^verbatim>\<open>endl\<close> inserts the newline
  character and flushes.
\<close>

definition digit_char :: "nat \<Rightarrow> char" where
  "digit_char d = char_of (48 + d)"

function digits :: "nat \<Rightarrow> string" where
  "digits n = (if n < 10 then [digit_char n] else digits (n div 10) @ [digit_char (n mod 10)])"
  by pat_completeness auto
termination
  by (relation "measure (\<lambda>n. n)") auto

declare digits.simps [simp del]

definition show_int :: "int \<Rightarrow> string" where
  "show_int i = (if i < 0 then CHR ''-'' # digits (nat (- i)) else digits (nat i))"

definition endl :: char where
  "endl = CHR 0x0A"

text \<open>Reading a decimal numeral back, to say what \<open>show_int\<close> denotes.\<close>

definition digit_val :: "char \<Rightarrow> nat" where
  "digit_val c = of_char c - 48"

definition read_nat :: "string \<Rightarrow> nat" where
  "read_nat cs = foldl (\<lambda>a c. 10 * a + digit_val c) 0 cs"

definition read_int :: "string \<Rightarrow> int" where
  "read_int cs = (case cs of
      [] \<Rightarrow> 0
    | c # ds \<Rightarrow> if c = CHR ''-'' then - int (read_nat ds) else int (read_nat cs))"

subsection \<open>The traversals\<close>

text \<open>
  \<^verbatim>\<open>
  void increment_all(int *start, int *stop) {
      int *current = start;
      while (current != stop) {
          ++(*current);
          ++current;
      }
  }
  \<close>
  The loop, from the cursor \<open>current\<close> on; it returns the state and the cursor it
  stopped at. The cursor only ever moves onto the next element after the element under
  it was accessed, so it never leaves the array by more than one position.
\<close>

function increment_all_loop :: "state \<Rightarrow> nat \<Rightarrow> nat \<Rightarrow> ub + (state \<times> nat)" where
  "increment_all_loop s current stop =
     (if current \<noteq> stop then
        (if current < length (arr s) then
           increment_all_loop
             (s\<lparr>arr := (arr s)[current := arr s ! current + 1]\<rparr>) (Suc current) stop
         else Inl OutOfBounds)
      else Inr (s, current))"
  by pat_completeness auto
termination
  by (relation "measure (\<lambda>(s, current, stop). length (arr s) - current)") auto

declare increment_all_loop.simps [simp del]

definition increment_all :: "state \<Rightarrow> nat \<Rightarrow> nat \<Rightarrow> ub + state" where
  "increment_all s start stop =
     (case increment_all_loop s start stop of
        Inl e \<Rightarrow> Inl e
      | Inr (s', current) \<Rightarrow> Inr s')"

text \<open>
  \<^verbatim>\<open>
  void print_all(const int* start, const int* stop) {
      const int *current = start;
      while (current != stop) {
          cout << *current << endl;
          ++current;
      }
  }
  \<close>
\<close>

function print_all_loop :: "state \<Rightarrow> nat \<Rightarrow> nat \<Rightarrow> ub + (state \<times> nat)" where
  "print_all_loop s current stop =
     (if current \<noteq> stop then
        (if current < length (arr s) then
           print_all_loop
             (s\<lparr>cout := cout s @ show_int (sint (arr s ! current)) @ [endl]\<rparr>) (Suc current) stop
         else Inl OutOfBounds)
      else Inr (s, current))"
  by pat_completeness auto
termination
  by (relation "measure (\<lambda>(s, current, stop). length (arr s) - current)") auto

declare print_all_loop.simps [simp del]

definition print_all :: "state \<Rightarrow> nat \<Rightarrow> nat \<Rightarrow> ub + state" where
  "print_all s start stop =
     (case print_all_loop s start stop of
        Inl e \<Rightarrow> Inl e
      | Inr (s', current) \<Rightarrow> Inr s')"

text \<open>
  \<^verbatim>\<open>
  int main() {
      int numbers[] = {10, 20, 30};
      increment_all(numbers, numbers+3);
      print_all(numbers, numbers+3);
      return 0;
  }
  \<close>
  The result is the exit status and what was written to \<^verbatim>\<open>cout\<close>, which is empty when
  the program starts.
\<close>

definition numbers :: "cint list" where
  "numbers = [10, 20, 30]"

definition main :: "ub + (int \<times> string)" where
  "main =
     (case increment_all \<lparr>arr = numbers, cout = []\<rparr> 0 (0 + 3) of
        Inl e \<Rightarrow> Inl e
      | Inr s1 \<Rightarrow>
          (case print_all s1 0 (0 + 3) of
             Inl e \<Rightarrow> Inl e
           | Inr s2 \<Rightarrow> Inr (0, cout s2)))"

subsection \<open>Ranges of a sequence\<close>

text \<open>
  The elements a traversal from \<open>start\<close> up to, not including, \<open>stop\<close> passes over:
  those at the positions \<open>start \<le> i < stop\<close>, in ascending order.
\<close>

definition slice :: "'a list \<Rightarrow> nat \<Rightarrow> nat \<Rightarrow> 'a list" where
  "slice xs start stop = take (stop - start) (drop start xs)"

text \<open>
  The pass the specification compares two runs of \<^verbatim>\<open>increment_all\<close> with: it adds 2
  to every element of the range and leaves the rest, on the integers the elements
  denote.
\<close>

definition add_two_pass :: "int list \<Rightarrow> nat \<Rightarrow> nat \<Rightarrow> int list" where
  "add_two_pass xs start stop =
     take start xs @ map (\<lambda>x. x + 2) (slice xs start stop) @ drop stop xs"

section \<open>Properties of the model\<close>

subsection \<open>Decimal output\<close>

lemma of_char_digit_char: "d < 10 \<Longrightarrow> of_char (digit_char d) = (48 + d :: nat)"
  by (simp add: digit_char_def)

lemma of_char_endl: "of_char endl = (10 :: nat)"
  by (simp add: endl_def)

lemma digit_val_digit_char: "d < 10 \<Longrightarrow> digit_val (digit_char d) = d"
  by (simp add: digit_val_def of_char_digit_char)

lemma digit_char_neq_endl: "d < 10 \<Longrightarrow> digit_char d \<noteq> endl"
proof
  assume "d < 10" and "digit_char d = endl"
  then have "(48 + d :: nat) = 10"
    using of_char_digit_char [of d] of_char_endl by simp
  then show False by simp
qed

lemma digit_char_neq_minus: "d < 10 \<Longrightarrow> digit_char d \<noteq> CHR ''-''"
proof
  assume "d < 10" and "digit_char d = CHR ''-''"
  then have "(48 + d :: nat) = of_char (CHR ''-'')"
    using of_char_digit_char [of d] by simp
  then show False by simp
qed

lemma read_nat_snoc: "read_nat (cs @ [c]) = 10 * read_nat cs + digit_val c"
  by (simp add: read_nat_def)

lemma read_nat_digits: "read_nat (digits n) = n"
proof (induction n rule: digits.induct)
  case (1 n)
  show ?case
  proof (cases "n < 10")
    case True
    then show ?thesis
      by (simp add: digits.simps [of n] read_nat_def digit_val_digit_char)
  next
    case False
    then have "read_nat (digits (n div 10)) = n div 10"
      using "1.IH" by simp
    with False show ?thesis
      by (simp add: digits.simps [of n] read_nat_snoc digit_val_digit_char)
  qed
qed

lemma digits_not_Nil: "digits n \<noteq> []"
  by (simp add: digits.simps [of n])

lemma endl_notin_digits: "endl \<notin> set (digits n)"
proof (induction n rule: digits.induct)
  case (1 n)
  show ?case
  proof (cases "n < 10")
    case True
    then show ?thesis
      using digit_char_neq_endl [of n] by (auto simp add: digits.simps [of n])
  next
    case False
    then have "endl \<notin> set (digits (n div 10))"
      using "1.IH" by simp
    moreover have "digit_char (n mod 10) \<noteq> endl"
      by (rule digit_char_neq_endl) simp
    ultimately show ?thesis
      using False by (auto simp add: digits.simps [of n])
  qed
qed

lemma minus_notin_digits: "CHR ''-'' \<notin> set (digits n)"
proof (induction n rule: digits.induct)
  case (1 n)
  show ?case
  proof (cases "n < 10")
    case True
    then show ?thesis
      using digit_char_neq_minus [of n] by (auto simp add: digits.simps [of n])
  next
    case False
    then have "CHR ''-'' \<notin> set (digits (n div 10))"
      using "1.IH" by simp
    moreover have "digit_char (n mod 10) \<noteq> CHR ''-''"
      by (rule digit_char_neq_minus) simp
    ultimately show ?thesis
      using False by (auto simp add: digits.simps [of n])
  qed
qed

lemma read_int_show_int: "read_int (show_int i) = i"
proof (cases "i < 0")
  case True
  then show ?thesis
    by (simp add: read_int_def show_int_def read_nat_digits)
next
  case False
  obtain c ds where split: "digits (nat i) = c # ds"
    using digits_not_Nil [of "nat i"] by (cases "digits (nat i)") auto
  then have "c \<noteq> CHR ''-''"
    using minus_notin_digits [of "nat i"] by auto
  moreover have "read_nat (c # ds) = nat i"
    using read_nat_digits [of "nat i"] split by simp
  ultimately show ?thesis
    using False split by (simp add: read_int_def show_int_def)
qed

lemma endl_notin_show_int: "endl \<notin> set (show_int i)"
  using endl_notin_digits by (auto simp add: show_int_def endl_def)

lemma count_endl_lines:
  "length (filter (\<lambda>c. c = endl) (concat (map (\<lambda>v. show_int (sint v) @ [endl]) (xs :: cint list)))) = length xs"
proof (induction xs)
  case Nil
  show ?case by simp
next
  case (Cons x xs)
  have "filter (\<lambda>c. c = endl) (show_int (sint x)) = []"
    using endl_notin_show_int [of "sint x"] by (auto simp add: filter_empty_conv)
  with Cons show ?case by simp
qed

subsection \<open>The loops over a valid range\<close>

text \<open>
  A range is valid when \<open>start \<le> stop \<le> length (arr s)\<close>: the sentinel is reached from
  the start cursor by advancing it, without leaving the array. Over a valid range each
  loop stops with the cursor on the sentinel; the increment loop has then rewritten the
  range, the print loop has appended one line for each of its elements.
\<close>

lemma sint_succ: "sint (v :: cint) \<noteq> INT_MAX \<Longrightarrow> sint (v + 1) = sint v + 1"
  using sint_ge [of v] sint_lt [of v]
  by (simp add: sint_word_ariths INT_MAX_def signed_take_bit_int_eq_self)

lemma slice_empty: "slice xs start start = []"
  by (simp add: slice_def)

lemma slice_step:
  "current < stop \<Longrightarrow> stop \<le> length xs \<Longrightarrow>
   slice xs current stop = xs ! current # slice xs (Suc current) stop"
proof -
  assume a: "current < stop" "stop \<le> length xs"
  then have "drop current xs = xs ! current # drop (Suc current) xs"
    by (simp add: Cons_nth_drop_Suc)
  moreover from a have "stop - current = Suc (stop - Suc current)"
    by simp
  ultimately show ?thesis
    by (simp add: slice_def)
qed

lemma slice_update_before:
  "current < start \<Longrightarrow> slice (xs[current := y]) start stop = slice xs start stop"
  by (simp add: slice_def)

lemma increment_all_loop_valid:
  "start \<le> stop \<Longrightarrow> stop \<le> length (arr s) \<Longrightarrow>
   increment_all_loop s start stop =
     Inr (s\<lparr>arr := take start (arr s) @ map (\<lambda>v. v + 1) (slice (arr s) start stop)
                        @ drop stop (arr s)\<rparr>, stop)"
proof (induction s start stop rule: increment_all_loop.induct)
  case (1 s current stop)
  show ?case
  proof (cases "current = stop")
    case True
    then show ?thesis
      by (simp add: increment_all_loop.simps [of s stop stop] slice_empty)
  next
    case False
    with "1.prems" have lt: "current < stop" "current < length (arr s)"
      by simp_all
    have sl: "slice (arr s) current stop = arr s ! current # slice (arr s) (Suc current) stop"
      using lt "1.prems" by (simp add: slice_step)
    let ?s = "s\<lparr>arr := (arr s)[current := arr s ! current + 1]\<rparr>"
    have ih: "increment_all_loop ?s (Suc current) stop =
        Inr (?s\<lparr>arr := take (Suc current) (arr ?s)
                    @ map (\<lambda>v. v + 1) (slice (arr ?s) (Suc current) stop)
                    @ drop stop (arr ?s)\<rparr>, stop)"
      using "1.IH" [OF False lt(2)] lt "1.prems" by simp
    have tk: "take (Suc current) (arr ?s) = take current (arr s) @ [arr s ! current + 1]"
      using lt by (simp add: take_Suc_conv_app_nth)
    have dr: "drop stop (arr ?s) = drop stop (arr s)"
      using lt by simp
    have sl': "slice (arr ?s) (Suc current) stop = slice (arr s) (Suc current) stop"
      by (simp add: slice_update_before)
    have "increment_all_loop s current stop = increment_all_loop ?s (Suc current) stop"
      using False lt by (simp add: increment_all_loop.simps [of s current stop])
    then show ?thesis
      unfolding ih sl' tk dr sl by simp
  qed
qed

lemma print_all_loop_valid:
  "start \<le> stop \<Longrightarrow> stop \<le> length (arr s) \<Longrightarrow>
   print_all_loop s start stop =
     Inr (s\<lparr>cout := cout s @ concat (map (\<lambda>v. show_int (sint v) @ [endl])
                                       (slice (arr s) start stop))\<rparr>, stop)"
proof (induction s start stop rule: print_all_loop.induct)
  case (1 s current stop)
  show ?case
  proof (cases "current = stop")
    case True
    then show ?thesis
      by (simp add: print_all_loop.simps [of s stop stop] slice_empty)
  next
    case False
    with "1.prems" have lt: "current < stop" "current < length (arr s)"
      by simp_all
    have sl: "slice (arr s) current stop = arr s ! current # slice (arr s) (Suc current) stop"
      using lt "1.prems" by (simp add: slice_step)
    let ?s = "s\<lparr>cout := cout s @ show_int (sint (arr s ! current)) @ [endl]\<rparr>"
    have ih: "print_all_loop ?s (Suc current) stop =
       Inr (?s\<lparr>cout := cout ?s @ concat (map (\<lambda>v. show_int (sint v) @ [endl])
                                       (slice (arr ?s) (Suc current) stop))\<rparr>, stop)"
      using "1.IH" [OF False lt(2)] lt "1.prems" by simp
    have "print_all_loop s current stop = print_all_loop ?s (Suc current) stop"
      using False lt by (simp add: print_all_loop.simps [of s current stop])
    then show ?thesis
      unfolding ih sl by simp
  qed
qed

lemma increment_all_valid:
  "start \<le> stop \<Longrightarrow> stop \<le> length (arr s) \<Longrightarrow>
   increment_all s start stop =
     Inr (s\<lparr>arr := take start (arr s) @ map (\<lambda>v. v + 1) (slice (arr s) start stop)
                        @ drop stop (arr s)\<rparr>)"
  by (simp add: increment_all_def increment_all_loop_valid)

lemma print_all_valid:
  "start \<le> stop \<Longrightarrow> stop \<le> length (arr s) \<Longrightarrow>
   print_all s start stop =
     Inr (s\<lparr>cout := cout s @ concat (map (\<lambda>v. show_int (sint v) @ [endl])
                                       (slice (arr s) start stop))\<rparr>)"
  by (simp add: print_all_def print_all_loop_valid)

lemma slice_full: "slice xs 0 (length xs) = xs"
  by (simp add: slice_def)

lemma length_slice: "stop \<le> length xs \<Longrightarrow> length (slice xs start stop) = stop - start"
  by (simp add: slice_def)

lemma slice_map: "slice (map f xs) start stop = map f (slice xs start stop)"
  by (simp add: slice_def take_map drop_map)

lemma length_rewritten:
  "start \<le> stop \<Longrightarrow> stop \<le> length xs \<Longrightarrow> length ys = stop - start \<Longrightarrow>
   length (take start xs @ ys @ drop stop xs) = length xs"
  by simp

lemma take_rewritten:
  "start \<le> stop \<Longrightarrow> stop \<le> length xs \<Longrightarrow>
   take start (take start xs @ ys @ drop stop xs) = take start xs"
  by simp

lemma slice_rewritten:
  "start \<le> stop \<Longrightarrow> stop \<le> length xs \<Longrightarrow> length ys = stop - start \<Longrightarrow>
   slice (take start xs @ ys @ drop stop xs) start stop = ys"
  by (simp add: slice_def)

lemma drop_rewritten:
  "start \<le> stop \<Longrightarrow> stop \<le> length xs \<Longrightarrow> length ys = stop - start \<Longrightarrow>
   drop stop (take start xs @ ys @ drop stop xs) = drop stop xs"
  by simp

lemma map_sint_succ:
  "\<forall>v \<in> set xs. sint v \<noteq> INT_MAX \<Longrightarrow>
   map sint (map (\<lambda>v. v + 1) (xs :: cint list)) = map (\<lambda>v. sint v + 1) xs"
  by (simp add: sint_succ)

subsection \<open>What a traversal does not depend on\<close>






section \<open>The specification's claims\<close>

subsection \<open>Mutate-All over the full range\<close>

text \<open>
  C1 (amended). For every sequence none of whose elements is \<open>INT_MAX\<close>, \<^verbatim>\<open>increment_all\<close>
  over the full half-open range \<open>[0, n)\<close> completes and increments every one of the \<open>n\<close>
  elements by exactly 1, as integers: the sequence afterwards is the old one with 1
  added at every position, so order and length are kept; nothing is written to the
  output.
\<close>

theorem increment_all_full_range:
  assumes "\<forall>v \<in> set (arr s). sint v \<noteq> INT_MAX"
  shows "\<exists>s'. increment_all s 0 (length (arr s)) = Inr s' \<and>
           length (arr s') = length (arr s) \<and>
           map sint (arr s') = map (\<lambda>v. sint v + 1) (arr s) \<and>
           cout s' = cout s"
proof -
  have "increment_all s 0 (length (arr s)) = Inr (s\<lparr>arr := map (\<lambda>v. v + 1) (arr s)\<rparr>)"
    using assms by (simp add: increment_all_valid slice_full)
  moreover have "map sint (map (\<lambda>v. v + 1) (arr s)) = map (\<lambda>v. sint v + 1) (arr s)"
    using assms by (rule map_sint_succ)
  ultimately show ?thesis
    by simp
qed

theorem increment_all_full_range_witness:
  "list_all (\<lambda>v. sint v \<noteq> INT_MAX) (arr \<lparr>arr = [5, - 3, 2147483646], cout = ''ab''\<rparr>) \<and>
   (\<exists>s'. increment_all \<lparr>arr = [5, - 3, 2147483646], cout = ''ab''\<rparr> 0 3 = Inr s' \<and>
      map sint (arr s') = [6, - 2, 2147483647] \<and> cout s' = ''ab'')"
proof -
  have h: "\<forall>v \<in> set (arr \<lparr>arr = [5, - 3, 2147483646], cout = ''ab''\<rparr>). sint v \<noteq> INT_MAX"
    by (simp add: INT_MAX_def)
  show ?thesis
    using h increment_all_full_range [OF h] by (auto simp add: numeral_3_eq_3)
qed

text \<open>
  Without the restriction the statement fails: an element equal to \<open>INT_MAX\<close> cannot be
  incremented by 1 within an \<^verbatim>\<open>int\<close>. The increment overflows and the element comes out
  as the smallest \<^verbatim>\<open>int\<close>, where adding 1 gives \<open>2147483648\<close>.
\<close>

theorem increment_all_full_range_counterexample:
  "increment_all \<lparr>arr = [1, 2147483647, 3], cout = []\<rparr> 0 (length [1, 2147483647, 3 :: cint])
     = Inr \<lparr>arr = [2, - 2147483648, 4], cout = []\<rparr> \<and>
   map sint [2, - 2147483648, 4 :: cint] = [2, - 2147483648, 4] \<and>
   [sint (1 :: cint) + 1, sint (2147483647 :: cint) + 1, sint (3 :: cint) + 1] = [2, 2147483648, 4]"
  by (simp add: increment_all_valid slice_def)

subsection \<open>The scenario of the entry point\<close>

text \<open>
  C2. The entry point starts from the sequence \<open>[10, 20, 30]\<close>; \<^verbatim>\<open>increment_all\<close> over
  the whole range turns it into \<open>[11, 21, 31]\<close>; \<^verbatim>\<open>print_all\<close> then writes exactly the
  three lines \<open>11\<close>, \<open>21\<close>, \<open>31\<close>, in that order, and \<^verbatim>\<open>main\<close> returns 0.
\<close>

theorem main_scenario:
  "numbers = [10, 20, 30] \<and>
   increment_all \<lparr>arr = numbers, cout = []\<rparr> 0 3 = Inr \<lparr>arr = [11, 21, 31], cout = []\<rparr> \<and>
   print_all \<lparr>arr = [11, 21, 31], cout = []\<rparr> 0 3 =
     Inr \<lparr>arr = [11, 21, 31],
          cout = ''11'' @ [CHR 0x0A] @ ''21'' @ [CHR 0x0A] @ ''31'' @ [CHR 0x0A]\<rparr> \<and>
   main = Inr (0, ''11'' @ [CHR 0x0A] @ ''21'' @ [CHR 0x0A] @ ''31'' @ [CHR 0x0A])"
proof -
  have inc: "increment_all \<lparr>arr = numbers, cout = []\<rparr> 0 3 = Inr \<lparr>arr = [11, 21, 31], cout = []\<rparr>"
    by (simp add: increment_all_valid slice_def numbers_def)
  have d: "show_int 11 = ''11''" "show_int 21 = ''21''" "show_int 31 = ''31''"
    by code_simp+
  have pr: "print_all \<lparr>arr = [11, 21, 31], cout = []\<rparr> 0 3 =
     Inr \<lparr>arr = [11, 21, 31],
          cout = ''11'' @ [CHR 0x0A] @ ''21'' @ [CHR 0x0A] @ ''31'' @ [CHR 0x0A]\<rparr>"
    by (simp add: print_all_valid slice_def d endl_def)
  show ?thesis
    by (simp add: main_def inc pr) (simp add: numbers_def)
qed

subsection \<open>Print-All over the full range\<close>

text \<open>
  C3. For every sequence of length \<open>n\<close>, \<^verbatim>\<open>print_all\<close> over the full range appends to the
  output stream one line per element, in ascending positional order: the text is the
  concatenation, over the elements from first to last, of the element's decimal
  representation followed by a newline. It holds exactly \<open>n\<close> newlines, and reading
  each representation back as a decimal numeral gives the element.
\<close>

theorem print_all_full_range:
  "print_all s 0 (length (arr s)) =
     Inr (s\<lparr>cout := cout s @ concat (map (\<lambda>v. show_int (sint v) @ [endl]) (arr s))\<rparr>) \<and>
   length (filter (\<lambda>c. c = endl) (concat (map (\<lambda>v. show_int (sint v) @ [endl]) (arr s))))
     = length (arr s) \<and>
   map (\<lambda>v. read_int (show_int (sint v))) (arr s) = map sint (arr s)"
proof (intro conjI)
  have "print_all s 0 (length (arr s)) =
      Inr (s\<lparr>cout := cout s @ concat (map (\<lambda>v. show_int (sint v) @ [endl])
                                        (slice (arr s) 0 (length (arr s))))\<rparr>)"
    by (rule print_all_valid) simp_all
  then show "print_all s 0 (length (arr s)) =
      Inr (s\<lparr>cout := cout s @ concat (map (\<lambda>v. show_int (sint v) @ [endl]) (arr s))\<rparr>)"
    by (simp only: slice_full)
  show "length (filter (\<lambda>c. c = endl) (concat (map (\<lambda>v. show_int (sint v) @ [endl]) (arr s))))
      = length (arr s)"
    by (rule count_endl_lines)
  show "map (\<lambda>v. read_int (show_int (sint v))) (arr s) = map sint (arr s)"
    by (simp add: read_int_show_int)
qed

subsection \<open>Print-All does not mutate\<close>

text \<open>
  C4. For every sequence and every valid range over it, \<^verbatim>\<open>print_all\<close> completes and the
  sequence afterwards equals the sequence before.
\<close>

theorem print_all_no_mutation:
  assumes "start \<le> stop" and "stop \<le> length (arr s)"
  shows "\<exists>s'. print_all s start stop = Inr s' \<and> arr s' = arr s"
  using assms by (simp add: print_all_valid)

theorem print_all_no_mutation_witness:
  "(1 :: nat) \<le> 3 \<and> 3 \<le> length (arr \<lparr>arr = [4, 5, 6, 7], cout = ''x''\<rparr>) \<and>
   (\<exists>s'. print_all \<lparr>arr = [4, 5, 6, 7], cout = ''x''\<rparr> 1 3 = Inr s' \<and> arr s' = [4, 5, 6, 7])"
proof -
  have h1: "(1 :: nat) \<le> 3" by simp
  have h2: "3 \<le> length (arr \<lparr>arr = [4, 5, 6, 7], cout = ''x''\<rparr>)" by simp
  show ?thesis
    using h1 h2 print_all_no_mutation [OF h1 h2] by simp
qed

subsection \<open>Two passes of Mutate-All\<close>

text \<open>
  C5 (amended). For every sequence and every valid range over it in which every element
  is at most \<open>INT_MAX - 2\<close>, running \<^verbatim>\<open>increment_all\<close> twice in succession over the range
  completes both times, and the final sequence is the one a single pass adding 2 to
  every element of the range produces.
\<close>

theorem increment_all_twice:
  assumes "start \<le> stop" and "stop \<le> length (arr s)"
    and "\<forall>v \<in> set (slice (arr s) start stop). sint v \<le> INT_MAX - 2"
  shows "\<exists>s1 s2. increment_all s start stop = Inr s1 \<and> increment_all s1 start stop = Inr s2 \<and>
           map sint (arr s2) = add_two_pass (map sint (arr s)) start stop \<and>
           cout s2 = cout s"
proof -
  let ?r = "slice (arr s) start stop"
  let ?a1 = "take start (arr s) @ map (\<lambda>v. v + 1) ?r @ drop stop (arr s)"
  let ?a2 = "take start (arr s) @ map (\<lambda>v. v + 1) (map (\<lambda>v. v + 1) ?r) @ drop stop (arr s)"
  have len: "length ?r = stop - start"
    using assms(2) by (rule length_slice)
  have ok1: "\<forall>v \<in> set ?r. sint v \<noteq> INT_MAX"
    using assms(3) by (auto simp add: INT_MAX_def)
  have first: "increment_all s start stop = Inr (s\<lparr>arr := ?a1\<rparr>)"
    using assms(1,2) by (simp add: increment_all_valid)
  have succ: "map sint (map (\<lambda>v. v + 1) ?r) = map (\<lambda>v. sint v + 1) ?r"
    using ok1 by (rule map_sint_succ)
  have ok2: "\<forall>v \<in> set (map (\<lambda>v. v + 1) ?r). sint v \<noteq> INT_MAX"
  proof
    fix w assume "w \<in> set (map (\<lambda>v. v + 1) ?r)"
    then obtain v where v: "v \<in> set ?r" "w = v + 1"
      by auto
    then have "sint v \<le> INT_MAX - 2"
      using assms(3) by simp
    then have "sint (v + 1) = sint v + 1" "sint v + 1 < INT_MAX"
      by (simp_all add: sint_succ INT_MAX_def)
    with v show "sint w \<noteq> INT_MAX"
      by simp
  qed
  have len1: "length ?a1 = length (arr s)"
    using assms(1,2) len by (simp add: length_rewritten)
  have parts: "take start ?a1 = take start (arr s)" "slice ?a1 start stop = map (\<lambda>v. v + 1) ?r"
      "drop stop ?a1 = drop stop (arr s)"
    using assms(1,2) len
    by (simp_all only: take_rewritten slice_rewritten drop_rewritten length_map)
  have second: "increment_all (s\<lparr>arr := ?a1\<rparr>) start stop = Inr (s\<lparr>arr := ?a2\<rparr>)"
    using assms(1,2) len1 parts
    by (simp add: increment_all_valid [of start stop "s\<lparr>arr := ?a1\<rparr>"])
  have "map sint (map (\<lambda>v. v + 1) (map (\<lambda>v. v + 1) ?r)) = map (\<lambda>v. sint v + 1) (map (\<lambda>v. v + 1) ?r)"
    using ok2 by (rule map_sint_succ)
  also have "\<dots> = map (\<lambda>x. x + 1) (map sint (map (\<lambda>v. v + 1) ?r))"
    by simp
  also have "\<dots> = map (\<lambda>x. x + 1) (map (\<lambda>v. sint v + 1) ?r)"
    by (simp only: succ)
  also have "\<dots> = map (\<lambda>x. x + 2) (map sint ?r)"
    by simp
  finally have "map sint ?a2 = add_two_pass (map sint (arr s)) start stop"
    by (simp add: add_two_pass_def slice_map take_map drop_map)
  with first second show ?thesis
    by simp
qed

theorem increment_all_twice_witness:
  "(1 :: nat) \<le> 3 \<and> 3 \<le> length (arr \<lparr>arr = [7, 2147483645, - 1, 2147483647], cout = ''z''\<rparr>) \<and>
   list_all (\<lambda>v. sint v \<le> INT_MAX - 2)
     (slice (arr \<lparr>arr = [7, 2147483645, - 1, 2147483647], cout = ''z''\<rparr>) 1 3) \<and>
   (\<exists>s1 s2. increment_all \<lparr>arr = [7, 2147483645, - 1, 2147483647], cout = ''z''\<rparr> 1 3 = Inr s1 \<and>
      increment_all s1 1 3 = Inr s2 \<and>
      map sint (arr s2) = [7, 2147483647, 1, 2147483647] \<and> cout s2 = ''z'')"
proof -
  let ?s = "\<lparr>arr = [7, 2147483645, - 1, 2147483647], cout = ''z''\<rparr>"
  have h1: "(1 :: nat) \<le> 3" by simp
  have h2: "3 \<le> length (arr ?s)" by simp
  have h3: "\<forall>v \<in> set (slice (arr ?s) 1 3). sint v \<le> INT_MAX - 2"
    by (simp add: slice_def INT_MAX_def)
  have v: "add_two_pass (map sint (arr ?s)) 1 3 = [7, 2147483647, 1, 2147483647]"
    by (simp add: add_two_pass_def slice_def)
  show ?thesis
    using h1 h2 h3 increment_all_twice [OF h1 h2 h3] unfolding v
    by (auto simp add: list_all_iff)
qed

text \<open>
  Without the bound the statement fails: from \<open>INT_MAX - 1\<close> the first pass reaches
  \<open>INT_MAX\<close> and the second overflows, leaving the smallest \<^verbatim>\<open>int\<close>, where adding 2
  gives \<open>INT_MAX + 1\<close>.
\<close>

theorem increment_all_twice_counterexample:
  "increment_all \<lparr>arr = [2147483646], cout = []\<rparr> 0 1 = Inr \<lparr>arr = [2147483647], cout = []\<rparr> \<and>
   increment_all \<lparr>arr = [2147483647], cout = []\<rparr> 0 1 = Inr \<lparr>arr = [- 2147483648], cout = []\<rparr> \<and>
   map sint [- 2147483648 :: cint] = [- 2147483648] \<and>
   add_two_pass (map sint [2147483646 :: cint]) 0 1 = [2147483648]"
  by (simp add: increment_all_valid slice_def add_two_pass_def)

subsection \<open>The empty range\<close>

text \<open>
  C6. When the start cursor equals the sentinel, both loops stop at once, without
  visiting an element: \<^verbatim>\<open>increment_all\<close> leaves the sequence unchanged and
  \<^verbatim>\<open>print_all\<close> writes nothing. This holds wherever the two equal cursors point.
\<close>

theorem empty_range:
  "increment_all_loop s start start = Inr (s, start) \<and> increment_all s start start = Inr s \<and>
   print_all_loop s start start = Inr (s, start) \<and> print_all s start start = Inr s"
  by (simp add: increment_all_def print_all_def increment_all_loop.simps [of s start start]
      print_all_loop.simps [of s start start])

subsection \<open>Termination at the sentinel\<close>

text \<open>
  C7. Over a valid range, that is, with the sentinel reachable from the start cursor by
  advancing it within the sequence, both loops terminate, each with its cursor equal
  to the sentinel and not before: the loop of \<^verbatim>\<open>print_all\<close> has then written one line
  for each of the \<open>stop - start\<close> positions it passed, and the loop of
  \<^verbatim>\<open>increment_all\<close> has rewritten the element at each of them. The values of the
  elements play no part: the cursor is compared by position.
\<close>

theorem traversals_stop_at_sentinel:
  assumes "start \<le> stop" and "stop \<le> length (arr s)"
  shows "(\<exists>s'. print_all_loop s start stop = Inr (s', stop) \<and>
            length (filter (\<lambda>c. c = endl) (drop (length (cout s)) (cout s'))) = stop - start) \<and>
         (\<exists>s'. increment_all_loop s start stop = Inr (s', stop) \<and>
            slice (arr s') start stop = map (\<lambda>v. v + 1) (slice (arr s) start stop))"
proof (intro conjI)
  let ?t = "concat (map (\<lambda>v. show_int (sint v) @ [endl]) (slice (arr s) start stop))"
  have "print_all_loop s start stop = Inr (s\<lparr>cout := cout s @ ?t\<rparr>, stop)"
    using assms by (rule print_all_loop_valid)
  moreover have "length (filter (\<lambda>c. c = endl) ?t) = stop - start"
    using assms(2) by (simp only: count_endl_lines length_slice)
  ultimately show "\<exists>s'. print_all_loop s start stop = Inr (s', stop) \<and>
      length (filter (\<lambda>c. c = endl) (drop (length (cout s)) (cout s'))) = stop - start"
    by simp
next
  let ?ys = "map (\<lambda>v. v + 1) (slice (arr s) start stop)"
  let ?a = "take start (arr s) @ ?ys @ drop stop (arr s)"
  have "increment_all_loop s start stop = Inr (s\<lparr>arr := ?a\<rparr>, stop)"
    using assms by (rule increment_all_loop_valid)
  moreover have "length ?ys = stop - start"
    using assms(2) by (simp add: length_slice)
  with assms have "slice ?a start stop = ?ys"
    by (rule slice_rewritten)
  ultimately show "\<exists>s'. increment_all_loop s start stop = Inr (s', stop) \<and>
      slice (arr s') start stop = ?ys"
    by simp
qed

theorem traversals_stop_at_sentinel_witness:
  "(0 :: nat) \<le> 3 \<and> 3 \<le> length (arr \<lparr>arr = [7, 2147483647, 9, 0], cout = ''q''\<rparr>) \<and>
   (\<exists>s'. print_all_loop \<lparr>arr = [7, 2147483647, 9, 0], cout = ''q''\<rparr> 0 3 = Inr (s', 3) \<and>
      length (filter (\<lambda>c. c = endl) (drop 1 (cout s'))) = 3) \<and>
   (\<exists>s'. increment_all_loop \<lparr>arr = [7, 2147483647, 9, 0], cout = ''q''\<rparr> 0 3 = Inr (s', 3) \<and>
      slice (arr s') 0 3 = [8, - 2147483648, 10])"
proof -
  let ?s = "\<lparr>arr = [7, 2147483647, 9, 0], cout = ''q''\<rparr>"
  have h1: "(0 :: nat) \<le> 3" by simp
  have h2: "3 \<le> length (arr ?s)" by simp
  have sl: "slice (arr ?s) 0 3 = [7, 2147483647, 9]"
    by (simp add: slice_def)
  show ?thesis
    using h1 h2 traversals_stop_at_sentinel [OF h1 h2] unfolding sl
    by auto
qed

subsection \<open>Totality\<close>

text \<open>
  C8. Over their documented precondition, a valid range, both operations are total:
  \<^verbatim>\<open>print_all\<close> and \<^verbatim>\<open>increment_all\<close> each complete with a state. Neither signals
  anything: the operations return \<^verbatim>\<open>void\<close>, so a call that completes carries no status,
  and no outcome other than completing occurs. The program completes both operations
  one after the other and then returns the exit status 0; it has no other outcome.
\<close>

theorem operations_total:
  assumes "start \<le> stop" and "stop \<le> length (arr s)"
  shows "(\<exists>s'. print_all s start stop = Inr s') \<and>
         (\<exists>s'. increment_all s start stop = Inr s') \<and>
         (\<forall>e. print_all s start stop \<noteq> Inl e) \<and>
         (\<forall>e. increment_all s start stop \<noteq> Inl e) \<and>
         (\<exists>s1 s2. increment_all \<lparr>arr = numbers, cout = []\<rparr> 0 3 = Inr s1 \<and>
                  print_all s1 0 3 = Inr s2 \<and> main = Inr (0, cout s2)) \<and>
         (\<forall>e. main \<noteq> Inl e)"
proof -
  have pr: "\<exists>s'. print_all s start stop = Inr s'"
    using assms by (simp add: print_all_valid)
  have inc: "\<exists>s'. increment_all s start stop = Inr s'"
    using assms by (simp add: increment_all_valid)
  have m1: "increment_all \<lparr>arr = numbers, cout = []\<rparr> 0 3 = Inr \<lparr>arr = [11, 21, 31], cout = []\<rparr>"
    by (simp add: increment_all_valid slice_def numbers_def)
  obtain s2 where m2: "print_all \<lparr>arr = [11, 21, 31], cout = []\<rparr> 0 3 = Inr s2"
    by (simp add: print_all_valid)
  have m: "main = Inr (0, cout s2)"
    by (simp add: main_def m1 m2)
  have nm: "\<forall>e. main \<noteq> Inl e"
    by (simp add: m)
  have "\<forall>e. print_all s start stop \<noteq> Inl e" "\<forall>e. increment_all s start stop \<noteq> Inl e"
    using pr inc by auto
  moreover have "\<exists>s1 s2. increment_all \<lparr>arr = numbers, cout = []\<rparr> 0 3 = Inr s1 \<and>
      print_all s1 0 3 = Inr s2 \<and> main = Inr (0, cout s2)"
    using m1 m2 m by blast
  ultimately show ?thesis
    using pr inc nm by blast
qed

theorem operations_total_witness:
  "(0 :: nat) \<le> 2 \<and> 2 \<le> length (arr \<lparr>arr = [2147483647, 1], cout = []\<rparr>) \<and>
   (\<exists>s'. print_all \<lparr>arr = [2147483647, 1], cout = []\<rparr> 0 2 = Inr s') \<and>
   (\<exists>s'. increment_all \<lparr>arr = [2147483647, 1], cout = []\<rparr> 0 2 = Inr s') \<and>
   print_all \<lparr>arr = [2147483647, 1], cout = []\<rparr> 0 2 \<noteq> Inl OutOfBounds \<and>
   increment_all \<lparr>arr = [2147483647, 1], cout = []\<rparr> 0 2 \<noteq> Inl OutOfBounds \<and>
   (\<exists>text. main = Inr (0, text)) \<and> main \<noteq> Inl OutOfBounds"
proof -
  let ?s = "\<lparr>arr = [2147483647, 1], cout = []\<rparr>"
  have h1: "(0 :: nat) \<le> 2" by simp
  have h2: "2 \<le> length (arr ?s)" by simp
  show ?thesis
    using h1 h2 operations_total [OF h1 h2] by auto
qed

subsection \<open>Mutate-All changes the range only\<close>

text \<open>
  C9. For every sequence and every valid subrange \<open>[start, stop)\<close> of it, a call of
  \<^verbatim>\<open>increment_all\<close> completes, and afterwards the sequence has its old length, the
  elements before \<open>start\<close> and those from \<open>stop\<close> on are unchanged, and so is the output
  stream: only positions inside the range are modified.
\<close>

theorem increment_all_frame:
  assumes "start \<le> stop" and "stop \<le> length (arr s)"
  shows "\<exists>s'. increment_all s start stop = Inr s' \<and>
           length (arr s') = length (arr s) \<and>
           take start (arr s') = take start (arr s) \<and>
           drop stop (arr s') = drop stop (arr s) \<and>
           cout s' = cout s"
proof -
  let ?ys = "map (\<lambda>v. v + 1) (slice (arr s) start stop)"
  let ?a = "take start (arr s) @ ?ys @ drop stop (arr s)"
  have run: "increment_all s start stop = Inr (s\<lparr>arr := ?a\<rparr>)"
    using assms by (rule increment_all_valid)
  have len: "length ?ys = stop - start"
    using assms(2) by (simp add: length_slice)
  have "length ?a = length (arr s)"
    using assms len by (rule length_rewritten)
  moreover have "take start ?a = take start (arr s)"
    using assms by (rule take_rewritten)
  moreover have "drop stop ?a = drop stop (arr s)"
    using assms len by (rule drop_rewritten)
  ultimately show ?thesis
    using run by simp
qed

theorem increment_all_frame_witness:
  "(1 :: nat) \<le> 2 \<and> 2 \<le> length (arr \<lparr>arr = [5, 2147483647, 7], cout = ''q''\<rparr>) \<and>
   (\<exists>s'. increment_all \<lparr>arr = [5, 2147483647, 7], cout = ''q''\<rparr> 1 2 = Inr s' \<and>
      length (arr s') = 3 \<and> take 1 (arr s') = [5] \<and> drop 2 (arr s') = [7] \<and> cout s' = ''q'')"
proof -
  let ?s = "\<lparr>arr = [5, 2147483647, 7], cout = ''q''\<rparr>"
  have h1: "(1 :: nat) \<le> 2" by simp
  have h2: "2 \<le> length (arr ?s)" by simp
  show ?thesis
    using h1 h2 increment_all_frame [OF h1 h2] by auto
qed

subsection \<open>Determinism\<close>



end
